theory Spec2Isabelle
  imports Main "HOL-Library.List_Lexorder" "HOL-Library.Sublist"
begin

section \<open>Strings and the tables of the standard library\<close>

text \<open>
  A Go string is read by \<^verbatim>\<open>snakeCase\<close> rune by rune (\<^verbatim>\<open>for _, r := range s\<close>) and
  written rune by rune (\<^verbatim>\<open>WriteRune\<close>), so a string is modelled as the list of its
  code points. ASCII literals of the source are written \<open>str ''...''\<close>.
\<close>

type_synonym rune = nat
type_synonym gostring = "rune list"

definition str :: "string \<Rightarrow> gostring" where
  "str s = map of_char s"

definition nl :: rune where
  "nl = 10"

definition underscore :: rune where
  "underscore = 95"

text \<open>The kinds of \<^verbatim>\<open>go/types.BasicKind\<close>, in the order of their declaration
  (\<^verbatim>\<open>types.Int\<close> is named \<open>IntKind\<close> here).\<close>

datatype BasicKind =
    Invalid
  | Bool | IntKind | Int8 | Int16 | Int32 | Int64
  | Uint | Uint8 | Uint16 | Uint32 | Uint64 | Uintptr
  | Float32 | Float64 | Complex64 | Complex128
  | String | UnsafePointer
  | UntypedBool | UntypedInt | UntypedRune | UntypedFloat
  | UntypedComplex | UntypedString | UntypedNil

text \<open>
  The implementations of \<^verbatim>\<open>go/types.Type\<close>. \<open>Basic\<close> carries \<^verbatim>\<open>Kind()\<close> and
  \<^verbatim>\<open>Name()\<close>, \<open>Named\<close> carries \<^verbatim>\<open>Obj().Name()\<close> and \<^verbatim>\<open>Underlying()\<close>, \<open>Array\<close>
  carries \<^verbatim>\<open>Elem()\<close> and \<^verbatim>\<open>Len()\<close> (an int64), \<open>Struct\<close> the fields with
  \<^verbatim>\<open>Name()\<close> and \<^verbatim>\<open>Type()\<close> in the order of \<^verbatim>\<open>Field(i)\<close>, \<open>Signature\<close> its
  parameter and result tuples.
\<close>

datatype gotype =
    Basic BasicKind gostring
  | Named gostring gotype
  | Array gotype int
  | Slice gotype
  | Pointer gotype
  | Signature gotype gotype
  | Struct "(gostring \<times> gotype) list"
  | Tuple "(gostring \<times> gotype) list"
  | Interface
  | Map gotype gotype
  | Chan gotype
  | TypeParam gostring

text \<open>
  What the program takes from packages outside the repository: the predicates and
  mappings of package \<^verbatim>\<open>unicode\<close>, \<^verbatim>\<open>types.TypeString\<close> (with the qualifier
  \<^verbatim>\<open>skipQualifier\<close>), \<^verbatim>\<open>filepath.Join\<close>, and whether \<^verbatim>\<open>ioutil.WriteFile\<close> fails.
\<close>

record env =
  IsUpper :: "rune \<Rightarrow> bool"
  ToLower :: "rune \<Rightarrow> rune"
  TypeString :: "gotype \<Rightarrow> gostring"
  Join :: "gostring \<Rightarrow> gostring \<Rightarrow> gostring"
  WriteFails :: "gostring \<Rightarrow> bool"

datatype error =
    UnresolvedTypeName gostring
  | UnsupportedTypeKind gotype
  | UnsupportedPrimitiveKind BasicKind

section \<open>snakeCase\<close>

text \<open>One iteration of the loop of \<^verbatim>\<open>snakeCase\<close> on the state \<open>(out, prevUpper)\<close>.\<close>

definition snakeStep :: "env \<Rightarrow> rune \<Rightarrow> gostring \<times> bool \<Rightarrow> gostring \<times> bool" where
  "snakeStep U r st =
     (case st of (out, prevUpper) \<Rightarrow>
        if IsUpper U r then
          ((if \<not> prevUpper then out @ [underscore] else out) @ [ToLower U r], True)
        else (out @ [r], False))"

definition snakeCase :: "env \<Rightarrow> gostring \<Rightarrow> gostring" where
  "snakeCase U s = fst (fold (snakeStep U) s ([], True))"

section \<open>basicKindToKai\<close>

fun basicKindToKai :: "BasicKind \<Rightarrow> error + gostring" where
  "basicKindToKai Bool = Inr (str ''b8'')"
| "basicKindToKai IntKind = Inr (str ''s8'')"
| "basicKindToKai Int8 = Inr (str ''s1'')"
| "basicKindToKai Int16 = Inr (str ''s2'')"
| "basicKindToKai Int32 = Inr (str ''s4'')"
| "basicKindToKai Int64 = Inr (str ''s8'')"
| "basicKindToKai Uint = Inr (str ''u8'')"
| "basicKindToKai Uint8 = Inr (str ''u1'')"
| "basicKindToKai Uint16 = Inr (str ''u2'')"
| "basicKindToKai Uint32 = Inr (str ''u4'')"
| "basicKindToKai Uint64 = Inr (str ''u8'')"
| "basicKindToKai Uintptr = Inr (str ''u8'')"
| "basicKindToKai Float32 = Inr (str ''f2'')"
| "basicKindToKai Float64 = Inr (str ''f4'')"
| "basicKindToKai Complex64 = Inr (str ''go_complex64'')"
| "basicKindToKai Complex128 = Inr (str ''go_complex128'')"
| "basicKindToKai String = Inr (str ''go_string'')"
| "basicKindToKai UnsafePointer = Inr (str ''go_unsafe_ptr'')"
| "basicKindToKai kind = Inl (UnsupportedPrimitiveKind kind)"

section \<open>Formatting and splitting\<close>

text \<open>The verb \<^verbatim>\<open>%d\<close> on an int64: decimal digits, with a sign when negative.\<close>

fun showNat :: "nat \<Rightarrow> gostring" where
  "showNat n = (if n < 10 then [48 + n] else showNat (n div 10) @ [48 + n mod 10])"

declare showNat.simps [simp del]

definition showInt :: "int \<Rightarrow> gostring" where
  "showInt i = (if i < 0 then 45 # showNat (nat (- i)) else showNat (nat i))"

text \<open>
  \<^verbatim>\<open>strings.Split(s, sep)\<close> for a separator of one character: a character other than
  the separator goes in front of the first piece of the rest. The rest always has a
  first piece, so the first case of the inner match is never taken.
\<close>

fun splitOn :: "rune \<Rightarrow> gostring \<Rightarrow> gostring list" where
  "splitOn sep [] = [[]]"
| "splitOn sep (c # cs) =
     (if c = sep then [] # splitOn sep cs
      else (case splitOn sep cs of [] \<Rightarrow> [[c]] | l # ls \<Rightarrow> (c # l) # ls))"

section \<open>The generator\<close>

text \<open>
  \<^verbatim>\<open>Generator\<close>: the buffer, the top-level definitions of the package (the name of
  each top-level type and \<^verbatim>\<open>def.Type().Underlying()\<close>) and the named types met.
\<close>

record Generator =
  buf :: gostring
  defs :: "(gostring \<times> gotype) list"
  namedTypeDeps :: "gostring set"

definition Printf :: "Generator \<Rightarrow> gostring \<Rightarrow> Generator" where
  "Printf g s = g\<lparr>buf := buf g @ s\<rparr>"

text \<open>
  \<^verbatim>\<open>kaiType\<close> returns the directives of a type. A panic is the value \<open>Inl\<close>; the
  generator is returned because the \<open>Named\<close> case writes to \<^verbatim>\<open>namedTypeDeps\<close>.
\<close>

fun kaiType :: "env \<Rightarrow> gotype \<Rightarrow> Generator \<Rightarrow> error + gostring \<times> Generator" where
  "kaiType U (Basic kind name) g =
     (case basicKindToKai kind of
        Inl e \<Rightarrow> Inl e
      | Inr c \<Rightarrow> Inr (str ''type: '' @ c @ str '' # '' @ name, g))"
| "kaiType U (Named name underlying) g =
     (let g1 = g\<lparr>namedTypeDeps := insert name (namedTypeDeps g)\<rparr> in
      case underlying of
        Basic kind bname \<Rightarrow>
          (case basicKindToKai kind of
             Inl e \<Rightarrow> Inl e
           | Inr c \<Rightarrow> Inr (str ''type: '' @ c @ [nl] @ str ''enum: '' @ snakeCase U name, g1))
      | _ \<Rightarrow> Inr (str ''type: '' @ snakeCase U name @ str '' # '' @ name, g1))"
| "kaiType U (Array elem len) g =
     (case kaiType U elem g of
        Inl e \<Rightarrow> Inl e
      | Inr (s, g1) \<Rightarrow>
          Inr (s @ [nl] @ str ''repeat: expr'' @ [nl] @ str ''repeat-expr: '' @ showInt len
                 @ str '' # '' @ TypeString U (Array elem len), g1))"
| "kaiType U (Slice elem) g =
     (case kaiType U elem g of
        Inl e \<Rightarrow> Inl e
      | Inr (s, g1) \<Rightarrow>
          Inr (s @ [nl] @ str ''repeat: expr'' @ [nl]
                 @ str ''repeat-expr: todo_add_slice_len # '' @ TypeString U (Slice elem), g1))"
| "kaiType U (Pointer elem) g =
     Inr (str ''type: pointer # '' @ TypeString U (Pointer elem), g)"
| "kaiType U (Signature params results) g =
     Inr (str ''type: func_signature # '' @ TypeString U (Signature params results), g)"
| "kaiType U t g = Inl (UnsupportedTypeKind t)"

text \<open>The loop of \<^verbatim>\<open>generateType\<close> over the fields of a struct.\<close>

fun generateFields :: "env \<Rightarrow> (gostring \<times> gotype) list \<Rightarrow> Generator \<Rightarrow> error + Generator" where
  "generateFields U [] g = Inr g"
| "generateFields U (field # rest) g =
     (let g1 = Printf g (str ''      - id: '' @ snakeCase U (fst field) @ [nl]) in
      case kaiType U (snd field) g1 of
        Inl e \<Rightarrow> Inl e
      | Inr (s, g2) \<Rightarrow>
          generateFields U rest
            (fold (\<lambda>l h. Printf h (str ''        '' @ l @ [nl])) (splitOn nl s) g2))"

fun generateType :: "env \<Rightarrow> gotype \<Rightarrow> Generator \<Rightarrow> error + Generator" where
  "generateType U (Struct fs) g = generateFields U fs g"
| "generateType U t g = Inl (UnsupportedTypeKind t)"

section \<open>The run\<close>

text \<open>What a run does outside its memory: lines on the log, and the file it writes.\<close>

datatype event =
    UsageMsg
  | LogGenerating gostring
  | LogDependsOn gostring
  | WriteFile gostring gostring

datatype exit_status = Exit0 | Exit2 | Aborted error | WriteFailed

record run =
  events :: "event list"
  status :: exit_status

text \<open>
  \<^verbatim>\<open>generate\<close>: \<^verbatim>\<open>log.Fatalf\<close> when no definition has the name, the log line and the
  header of the entry otherwise, then \<^verbatim>\<open>generateType\<close>.
\<close>

definition generate :: "env \<Rightarrow> gostring \<Rightarrow> Generator \<Rightarrow> event list \<times> (error + Generator)" where
  "generate U typeName g =
     (case map_of (defs g) typeName of
        None \<Rightarrow> ([], Inl (UnresolvedTypeName typeName))
      | Some underlying \<Rightarrow>
          ([LogGenerating (snakeCase U typeName)],
           generateType U underlying
             (Printf (Printf g (str ''  '' @ snakeCase U typeName @ str '':'' @ [nl]))
                (str ''    seq:'' @ [nl]))))"

fun generateAll :: "env \<Rightarrow> gostring list \<Rightarrow> Generator \<Rightarrow> event list \<times> (error + Generator)" where
  "generateAll U [] g = ([], Inr g)"
| "generateAll U (typeName # rest) g =
     (case generate U typeName g of
        (ev, Inl e) \<Rightarrow> (ev, Inl e)
      | (ev, Inr g1) \<Rightarrow>
          (case generateAll U rest g1 of (ev2, r) \<Rightarrow> (ev @ ev2, r)))"

text \<open>
  \<^verbatim>\<open>main\<close> after the package is loaded: \<open>cmdline\<close> is \<^verbatim>\<open>strings.Join(os.Args[1:], " ")\<close>,
  \<open>typeNames\<close> and \<open>output\<close> are the flags, \<open>dir\<close> the directory of the package and
  \<open>topLevelDefs\<close> the definitions found by \<^verbatim>\<open>addPackage\<close>.
\<close>

definition main :: "env \<Rightarrow> gostring \<Rightarrow> gostring \<Rightarrow> gostring \<Rightarrow> gostring
    \<Rightarrow> (gostring \<times> gotype) list \<Rightarrow> run" where
  "main U cmdline typeNames output dir topLevelDefs =
     (if typeNames = [] then \<lparr>events = [UsageMsg], status = Exit2\<rparr>
      else
        let types = splitOn 44 typeNames;
            g0 = \<lparr>buf = [], defs = topLevelDefs, namedTypeDeps = {}\<rparr>;
            g1 = Printf g0 (str ''# Code generated by '' @ [34] @ str ''enum2kaitai '' @ cmdline
                   @ [34] @ str ''; DO NOT EDIT.'' @ [nl]);
            g2 = Printf g1 [nl];
            g3 = Printf g2 (str ''types:'' @ [nl])
        in case generateAll U types g3 of
             (ev, Inl e) \<Rightarrow> \<lparr>events = ev, status = Aborted e\<rparr>
           | (ev, Inr g) \<Rightarrow>
               (let src = buf g;
                    outputName =
                      (if output = [] then
                         Join U dir (map (ToLower U) (hd types @ str ''_type.ksy''))
                       else output)
                in \<lparr>events = ev @ map LogDependsOn (sorted_list_of_set (namedTypeDeps g))
                              @ [WriteFile outputName src],
                    status = (if WriteFails U outputName then WriteFailed else Exit0)\<rparr>))"

text \<open>
  \<^verbatim>\<open>kaiType\<close> with a bound on the depth of its calls: every call, the first one
  included, takes one unit, and \<open>None\<close> says that the bound was reached.
\<close>

fun kaiTypeN :: "nat \<Rightarrow> env \<Rightarrow> gotype \<Rightarrow> Generator \<Rightarrow> (error + gostring \<times> Generator) option" where
  "kaiTypeN 0 U t g = None"
| "kaiTypeN (Suc n) U (Basic kind name) g =
     Some (case basicKindToKai kind of
        Inl e \<Rightarrow> Inl e
      | Inr c \<Rightarrow> Inr (str ''type: '' @ c @ str '' # '' @ name, g))"
| "kaiTypeN (Suc n) U (Named name underlying) g =
     Some (let g1 = g\<lparr>namedTypeDeps := insert name (namedTypeDeps g)\<rparr> in
      case underlying of
        Basic kind bname \<Rightarrow>
          (case basicKindToKai kind of
             Inl e \<Rightarrow> Inl e
           | Inr c \<Rightarrow> Inr (str ''type: '' @ c @ [nl] @ str ''enum: '' @ snakeCase U name, g1))
      | _ \<Rightarrow> Inr (str ''type: '' @ snakeCase U name @ str '' # '' @ name, g1))"
| "kaiTypeN (Suc n) U (Array elem len) g =
     (case kaiTypeN n U elem g of
        None \<Rightarrow> None
      | Some (Inl e) \<Rightarrow> Some (Inl e)
      | Some (Inr (s, g1)) \<Rightarrow>
          Some (Inr (s @ [nl] @ str ''repeat: expr'' @ [nl] @ str ''repeat-expr: '' @ showInt len
                 @ str '' # '' @ TypeString U (Array elem len), g1)))"
| "kaiTypeN (Suc n) U (Slice elem) g =
     (case kaiTypeN n U elem g of
        None \<Rightarrow> None
      | Some (Inl e) \<Rightarrow> Some (Inl e)
      | Some (Inr (s, g1)) \<Rightarrow>
          Some (Inr (s @ [nl] @ str ''repeat: expr'' @ [nl]
                 @ str ''repeat-expr: todo_add_slice_len # '' @ TypeString U (Slice elem), g1)))"
| "kaiTypeN (Suc n) U (Pointer elem) g =
     Some (Inr (str ''type: pointer # '' @ TypeString U (Pointer elem), g))"
| "kaiTypeN (Suc n) U (Signature params results) g =
     Some (Inr (str ''type: func_signature # '' @ TypeString U (Signature params results), g))"
| "kaiTypeN (Suc n) U t g = Some (Inl (UnsupportedTypeKind t))"

text \<open>The number of array and slice types around the first type of another kind.\<close>

fun wrapDepth :: "gotype \<Rightarrow> nat" where
  "wrapDepth (Array elem len) = Suc (wrapDepth elem)"
| "wrapDepth (Slice elem) = Suc (wrapDepth elem)"
| "wrapDepth t = 0"

section \<open>Reading the output\<close>

text \<open>
  The value of a decimal literal, to say what count a \<^verbatim>\<open>repeat-expr:\<close> line carries.
\<close>

definition readNat :: "gostring \<Rightarrow> nat" where
  "readNat s = foldl (\<lambda>a d. 10 * a + (d - 48)) 0 s"

definition readInt :: "gostring \<Rightarrow> int" where
  "readInt s = (case s of [] \<Rightarrow> 0
                | c # cs \<Rightarrow> if c = 45 then - int (readNat cs) else int (readNat s))"

text \<open>Lines, each closed by a line feed, and the lines that open a field entry.\<close>

definition unlines :: "gostring list \<Rightarrow> gostring" where
  "unlines L = concat (map (\<lambda>l. l @ [nl]) L)"

definition idEntry :: "gostring \<Rightarrow> bool" where
  "idEntry l = prefix (str ''      - id: '') l"

definition isWrite :: "event \<Rightarrow> bool" where
  "isWrite ev = (case ev of WriteFile name src \<Rightarrow> True | _ \<Rightarrow> False)"

section \<open>An environment for the examples\<close>

text \<open>
  The display form of \<^verbatim>\<open>types.TypeString\<close> on basic, named, array, slice and pointer
  types; the examples use no other kind under an array, slice or pointer.
\<close>

fun exampleTypeString :: "gotype \<Rightarrow> gostring" where
  "exampleTypeString (Basic kind name) = name"
| "exampleTypeString (Named name underlying) = name"
| "exampleTypeString (Array elem len) = str ''['' @ showInt len @ str '']'' @ exampleTypeString elem"
| "exampleTypeString (Slice elem) = str ''[]'' @ exampleTypeString elem"
| "exampleTypeString (Pointer elem) = str ''*'' @ exampleTypeString elem"
| "exampleTypeString t = []"

text \<open>
  The tables of package \<^verbatim>\<open>unicode\<close> on ASCII and on U+2102 (8450, DOUBLE-STRUCK
  CAPITAL C: an upper-case letter, category Lu, with no lower-case mapping, so that
  \<^verbatim>\<open>unicode.ToLower\<close> returns it unchanged); \<^verbatim>\<open>filepath.Join\<close> on two clean
  relative names; a file system on which writing succeeds.
\<close>

definition exampleEnv :: env where
  "exampleEnv =
     \<lparr>IsUpper = (\<lambda>r. (65 \<le> r \<and> r \<le> 90) \<or> r = 8450),
      ToLower = (\<lambda>r. if 65 \<le> r \<and> r \<le> 90 then r + 32 else r),
      TypeString = exampleTypeString,
      Join = (\<lambda>dir base. dir @ [47] @ base),
      WriteFails = (\<lambda>name. False)\<rparr>"

section \<open>Facts about strings and lines\<close>

lemma str_eq_iff: "str a = str b \<longleftrightarrow> a = b"
  by (simp add: str_def inj_on_def)

lemma splitOn_nonempty: "splitOn sep s \<noteq> []"
  by (induction s) (simp_all split: list.splits)

lemma splitOn_append: "splitOn sep (a @ sep # b) = splitOn sep a @ splitOn sep b"
proof (induction a)
  case Nil
  then show ?case by simp
next
  case (Cons c a)
  obtain h t where ht: "splitOn sep a = h # t"
    using splitOn_nonempty[of sep a] by (cases "splitOn sep a") auto
  with Cons show ?case by simp
qed

lemma splitOn_single: "sep \<notin> set l \<Longrightarrow> splitOn sep l = [l]"
  by (induction l) simp_all

lemma splitOn_pieces: "l \<in> set (splitOn sep s) \<Longrightarrow> sep \<notin> set l"
proof (induction s arbitrary: l)
  case Nil
  then show ?case by simp
next
  case (Cons c cs)
  show ?case
  proof (cases "c = sep")
    case True
    with Cons show ?thesis by auto
  next
    case False
    obtain h t where ht: "splitOn sep cs = h # t"
      using splitOn_nonempty[of sep cs] by (cases "splitOn sep cs") auto
    with Cons.prems False have "l = c # h \<or> l \<in> set t" by auto
    with Cons.IH ht False show ?thesis by auto
  qed
qed

lemma splitOn_unlines:
  "\<forall>l\<in>set L. nl \<notin> set l \<Longrightarrow> splitOn nl (unlines L @ rest) = L @ splitOn nl rest"
proof (induction L)
  case Nil
  then show ?case by (simp add: unlines_def)
next
  case (Cons l L)
  then have "splitOn nl (unlines L @ rest) = L @ splitOn nl rest" by simp
  moreover have "unlines (l # L) @ rest = l @ nl # (unlines L @ rest)"
    by (simp add: unlines_def)
  moreover from Cons.prems have "splitOn nl l = [l]" by (simp add: splitOn_single)
  ultimately show ?case by (simp add: splitOn_append)
qed

lemma readNat_showNat: "readNat (showNat n) = n"
proof (induction n rule: showNat.induct)
  case (1 n)
  show ?case
  proof (cases "n < 10")
    case True
    then show ?thesis by (subst showNat.simps) (simp add: readNat_def)
  next
    case False
    with 1 have "readNat (showNat (n div 10)) = n div 10" by simp
    with False show ?thesis by (subst showNat.simps) (simp add: readNat_def)
  qed
qed

lemma showNat_digits: "c \<in> set (showNat n) \<Longrightarrow> 48 \<le> c \<and> c \<le> 57"
proof (induction n arbitrary: c rule: showNat.induct)
  case (1 n)
  show ?case
  proof (cases "n < 10")
    case True
    with "1.prems" have "c = 48 + n" by (subst (asm) showNat.simps) simp
    with True show ?thesis by simp
  next
    case False
    with "1.prems" have "c \<in> set (showNat (n div 10)) \<or> c = 48 + n mod 10"
      by (subst (asm) showNat.simps) auto
    moreover have "n mod 10 < 10" by simp
    ultimately show ?thesis using "1.IH"[OF False] by fastforce
  qed
qed

lemma showNat_nonempty: "showNat n \<noteq> []"
  by (subst showNat.simps) simp

lemma readInt_showInt: "readInt (showInt i) = i"
proof (cases "i < 0")
  case True
  then show ?thesis by (simp add: readInt_def showInt_def readNat_showNat)
next
  case False
  obtain c cs where cs: "showNat (nat i) = c # cs"
    using showNat_nonempty[of "nat i"] by (cases "showNat (nat i)") auto
  then have "c \<in> set (showNat (nat i))" by simp
  then have "c \<noteq> 45" using showNat_digits[of c "nat i"] by auto
  with False cs readNat_showNat[of "nat i"] show ?thesis
    by (simp add: readInt_def showInt_def)
qed

lemma showInt_no_nl: "nl \<notin> set (showInt i)"
  using showNat_digits[of nl "nat (- i)"] showNat_digits[of nl "nat i"]
  by (auto simp: showInt_def nl_def)

lemma basicKindToKai_no_nl: "basicKindToKai k = Inr c \<Longrightarrow> nl \<notin> set c"
  by (cases k) (auto simp: str_def nl_def)

section \<open>The codes of the primitive kinds\<close>

text \<open>
  C2, as the specification has it: every supported primitive kind gets the same code on
  every call, and two distinct supported kinds get distinct codes. The second half fails:
  \<^verbatim>\<open>types.Int\<close> and \<^verbatim>\<open>types.Int64\<close> are distinct kinds and both get \<^verbatim>\<open>s8\<close>.
\<close>

theorem basicKindToKai_injective_counterexample:
  "IntKind \<noteq> Int64 \<and> basicKindToKai IntKind = Inr (str ''s8'')
     \<and> basicKindToKai Int64 = Inr (str ''s8'')"
  by simp

text \<open>
  C2, amended: the code of a kind is a function of the kind alone, and two distinct kinds
  get the same code only when both are among \<^verbatim>\<open>Int\<close>, \<^verbatim>\<open>Int64\<close> (code \<^verbatim>\<open>s8\<close>) or both
  among \<^verbatim>\<open>Uint\<close>, \<^verbatim>\<open>Uint64\<close>, \<^verbatim>\<open>Uintptr\<close> (code \<^verbatim>\<open>u8\<close>).
\<close>

theorem basicKindToKai_codes_distinct:
  "basicKindToKai k1 = Inr c \<Longrightarrow> basicKindToKai k2 = Inr c \<Longrightarrow>
     k1 = k2 \<or> {k1, k2} \<subseteq> {IntKind, Int64} \<or> {k1, k2} \<subseteq> {Uint, Uint64, Uintptr}"
  by (cases k1; cases k2) (auto simp: str_eq_iff)

theorem basicKindToKai_codes_distinct_witness:
  "basicKindToKai Uint = Inr (str ''u8'') \<and> basicKindToKai Uintptr = Inr (str ''u8'')
     \<and> (Uint = Uintptr \<or> {Uint, Uintptr} \<subseteq> {IntKind, Int64}
          \<or> {Uint, Uintptr} \<subseteq> {Uint, Uint64, Uintptr})"
  using basicKindToKai_codes_distinct [of Uint "str ''u8''" Uintptr] by simp

text \<open>
  C3, as the specification has it: the string, complex and unsafe-pointer kinds have no
  code and the mapping fails on them. The code has a case for each of them.
\<close>

theorem basicKindToKai_unsupported_counterexample:
  "basicKindToKai String = Inr (str ''go_string'')
     \<and> basicKindToKai Complex64 = Inr (str ''go_complex64'')
     \<and> basicKindToKai Complex128 = Inr (str ''go_complex128'')
     \<and> basicKindToKai UnsafePointer = Inr (str ''go_unsafe_ptr'')"
  by simp

text \<open>
  C3, amended: the mapping fails, with an error that names the kind, exactly on the
  invalid kind and on the kinds of untyped constants; the string, complex and
  unsafe-pointer kinds get the codes \<^verbatim>\<open>go_string\<close>, \<^verbatim>\<open>go_complex64\<close>,
  \<^verbatim>\<open>go_complex128\<close> and \<^verbatim>\<open>go_unsafe_ptr\<close>.
\<close>

theorem basicKindToKai_fails_iff:
  "(basicKindToKai k = Inl (UnsupportedPrimitiveKind k)) =
     (k \<in> {Invalid, UntypedBool, UntypedInt, UntypedRune, UntypedFloat, UntypedComplex,
            UntypedString, UntypedNil})
   \<and> ((\<exists>e. basicKindToKai k = Inl e) = (basicKindToKai k = Inl (UnsupportedPrimitiveKind k)))"
  by (cases k) simp_all

section \<open>snakeCase is idempotent where lowering leaves no upper-case letter\<close>

lemma fold_snake_noupper:
  "\<forall>r\<in>set t. \<not> IsUpper U r \<Longrightarrow> fst (fold (snakeStep U) t (out, p)) = out @ t"
  by (induction t arbitrary: out p) (simp_all add: snakeStep_def)

lemma fold_snake_out_noupper:
  "\<not> IsUpper U underscore \<Longrightarrow> \<forall>r\<in>set s. IsUpper U r \<longrightarrow> \<not> IsUpper U (ToLower U r) \<Longrightarrow>
   \<forall>r\<in>set out. \<not> IsUpper U r \<Longrightarrow>
   \<forall>r\<in>set (fst (fold (snakeStep U) s (out, p))). \<not> IsUpper U r"
proof (induction s arbitrary: out p)
  case Nil
  then show ?case by simp
next
  case (Cons a s)
  show ?case
  proof (cases "IsUpper U a")
    case True
    with Cons.prems have "\<forall>r\<in>set ((if \<not> p then out @ [underscore] else out) @ [ToLower U a]). \<not> IsUpper U r"
      by auto
    with Cons.IH[of "(if \<not> p then out @ [underscore] else out) @ [ToLower U a]" True] Cons.prems True
    show ?thesis by (simp add: snakeStep_def)
  next
    case False
    with Cons.prems have "\<forall>r\<in>set (out @ [a]). \<not> IsUpper U r" by auto
    with Cons.IH[of "out @ [a]" False] Cons.prems False
    show ?thesis by (simp add: snakeStep_def)
  qed
qed

text \<open>
  C7, as the specification has it: \<open>snakeCase (snakeCase s) = snakeCase s\<close> for every
  string, because the result holds no upper-case character. \<^verbatim>\<open>unicode.ToLower\<close> leaves
  an upper-case letter that has no lower-case mapping as it is; after a character that
  is not upper case, such a letter gets a separator on every pass.
\<close>

theorem snakeCase_idempotent_counterexample:
  "snakeCase exampleEnv [97, 8450] = [97, 95, 8450]
     \<and> snakeCase exampleEnv (snakeCase exampleEnv [97, 8450]) = [97, 95, 95, 8450]
     \<and> snakeCase exampleEnv (snakeCase exampleEnv [97, 8450]) \<noteq> snakeCase exampleEnv [97, 8450]"
  by (simp add: snakeCase_def snakeStep_def exampleEnv_def underscore_def)

text \<open>
  C7, amended: \<open>snakeCase (snakeCase s) = snakeCase s\<close> for every string \<open>s\<close> in which
  each upper-case character is mapped by \<^verbatim>\<open>unicode.ToLower\<close> to a character that is not
  upper case (the underscore not being upper case); every ASCII string is one.
\<close>

theorem snakeCase_idempotent:
  "\<not> IsUpper U underscore \<Longrightarrow>
   \<forall>r\<in>set s. IsUpper U r \<longrightarrow> \<not> IsUpper U (ToLower U r) \<Longrightarrow>
   snakeCase U (snakeCase U s) = snakeCase U s"
  unfolding snakeCase_def
  using fold_snake_out_noupper[of U s "[]" True] fold_snake_noupper[of "fst (fold (snakeStep U) s ([], True))" U "[]" True]
  by simp

(* showNat *)

theorem snakeCase_idempotent_witness:
  "\<not> IsUpper exampleEnv underscore
     \<and> (\<forall>r\<in>set (str ''OrderStatus''). IsUpper exampleEnv r \<longrightarrow> \<not> IsUpper exampleEnv (ToLower exampleEnv r))
     \<and> snakeCase exampleEnv (snakeCase exampleEnv (str ''OrderStatus''))
         = snakeCase exampleEnv (str ''OrderStatus'')"
proof -
  have h1: "\<not> IsUpper exampleEnv underscore"
    by (simp add: exampleEnv_def underscore_def)
  have h2: "\<forall>r\<in>set (str ''OrderStatus''). IsUpper exampleEnv r \<longrightarrow> \<not> IsUpper exampleEnv (ToLower exampleEnv r)"
    by (simp add: exampleEnv_def str_def)
  show ?thesis
    using h1 h2 snakeCase_idempotent [OF h1 h2] by simp
qed

section \<open>kaiType\<close>

lemma fold_Printf_buf:
  "buf (fold (\<lambda>l h. Printf h (f l)) ls g) = buf g @ concat (map f ls)"
  by (induction ls arbitrary: g) (simp_all add: Printf_def)

lemma fold_Printf_defs:
  "defs (fold (\<lambda>l h. Printf h (f l)) ls g) = defs g"
  by (induction ls arbitrary: g) (simp_all add: Printf_def)

lemma kaiType_buf: "kaiType U t g = Inr (s, g') \<Longrightarrow> buf g' = buf g \<and> defs g' = defs g"
proof (induction U t g arbitrary: s g' rule: kaiType.induct)
  case (1 U kind name g)
  then show ?case by (simp split: sum.splits)
next
  case (2 U name underlying g)
  then show ?case by (cases underlying) (auto simp: Let_def split: sum.splits)
next
  case (3 U elem len g)
  then show ?case by (simp split: sum.splits prod.splits)
next
  case (4 U elem g)
  then show ?case by (simp split: sum.splits prod.splits)
qed simp_all

lemma kaiTypeN_enough: "wrapDepth t < n \<Longrightarrow> kaiTypeN n U t g = Some (kaiType U t g)"
proof (induction t arbitrary: n g)
  case (Array t x2)
  then obtain m where "n = Suc m" "wrapDepth t < m" by (cases n) auto
  with Array.IH[of m g] show ?case by (simp split: sum.splits prod.splits)
next
  case (Slice t)
  then obtain m where "n = Suc m" "wrapDepth t < m" by (cases n) auto
  with Slice.IH[of m g] show ?case by (simp split: sum.splits prod.splits)
qed (case_tac n; simp)+

text \<open>
  C4: for a field whose type is a named type over a primitive kind, \<^verbatim>\<open>kaiType\<close> returns
  the line \<^verbatim>\<open>type:\<close> with the code of the underlying kind and the line \<^verbatim>\<open>enum:\<close> with
  the normalized name of the type, and records the name among the named types met. The
  code of the underlying kind is the one \<^verbatim>\<open>basicKindToKai\<close> returns.
\<close>

theorem kaiType_named_primitive:
  assumes "basicKindToKai kind = Inr c"
  shows "kaiType U (Named name (Basic kind bname)) g =
           Inr (str ''type: '' @ c @ [nl] @ str ''enum: '' @ snakeCase U name,
                g\<lparr>namedTypeDeps := insert name (namedTypeDeps g)\<rparr>)
       \<and> (nl \<notin> set (snakeCase U name) \<longrightarrow>
            splitOn nl (str ''type: '' @ c @ [nl] @ str ''enum: '' @ snakeCase U name)
              = [str ''type: '' @ c, str ''enum: '' @ snakeCase U name])"
proof -
  let ?a = "str ''type: '' @ c"
  let ?b = "str ''enum: '' @ snakeCase U name"
  have a: "nl \<notin> set ?a"
    using basicKindToKai_no_nl[OF assms] by (simp add: str_def nl_def)
  have split: "splitOn nl (?a @ nl # ?b) = splitOn nl ?a @ splitOn nl ?b"
    by (rule splitOn_append)
  have "splitOn nl (?a @ nl # ?b) = [?a, ?b]" if n: "nl \<notin> set (snakeCase U name)"
  proof -
    from n have b: "nl \<notin> set ?b" by (simp add: str_def nl_def)
    show ?thesis
      unfolding split splitOn_single[OF a] splitOn_single[OF b] by simp
  qed
  moreover have "kaiType U (Named name (Basic kind bname)) g =
           Inr (?a @ [nl] @ ?b, g\<lparr>namedTypeDeps := insert name (namedTypeDeps g)\<rparr>)"
    using assms by simp
  ultimately show ?thesis by simp
qed

theorem kaiType_named_primitive_witness:
  "basicKindToKai Uint8 = Inr (str ''u1'')
     \<and> kaiType exampleEnv (Named (str ''OrderStatus'') (Basic Uint8 (str ''uint8'')))
           \<lparr>buf = [], defs = [], namedTypeDeps = {}\<rparr>
         = Inr (str ''type: u1'' @ [nl] @ str ''enum: order_status'',
                \<lparr>buf = [], defs = [], namedTypeDeps = {str ''OrderStatus''}\<rparr>)"
proof -
  have h: "basicKindToKai Uint8 = Inr (str ''u1'')" by simp
  have n: "snakeCase exampleEnv (str ''OrderStatus'') = str ''order_status''"
    by (simp add: snakeCase_def snakeStep_def exampleEnv_def underscore_def str_def)
  show ?thesis
    using h n kaiType_named_primitive [OF h, of exampleEnv "str ''OrderStatus''" "str ''uint8''"
        "\<lparr>buf = [], defs = [], namedTypeDeps = {}\<rparr>"]
    by (simp add: str_def)
qed

text \<open>
  C6: for a fixed array of length \<open>len\<close> whose element type translates to \<open>s\<close>,
  \<^verbatim>\<open>kaiType\<close> returns \<open>s\<close>, then the line \<^verbatim>\<open>repeat: expr\<close>, then the line
  \<^verbatim>\<open>repeat-expr:\<close> with the decimal literal of \<open>len\<close>, whose value is \<open>len\<close>, and the
  display form of the array type as a comment. These are the lines of the result when
  the display form holds no line feed.
\<close>

theorem kaiType_array:
  assumes "kaiType U elem g = Inr (s, g1)"
  shows "kaiType U (Array elem len) g =
           Inr (s @ [nl] @ str ''repeat: expr'' @ [nl] @ str ''repeat-expr: '' @ showInt len
                  @ str '' # '' @ TypeString U (Array elem len), g1)
       \<and> readInt (showInt len) = len
       \<and> (nl \<notin> set (TypeString U (Array elem len)) \<longrightarrow>
            splitOn nl (s @ [nl] @ str ''repeat: expr'' @ [nl] @ str ''repeat-expr: ''
                          @ showInt len @ str '' # '' @ TypeString U (Array elem len))
              = splitOn nl s @ [str ''repeat: expr'',
                  str ''repeat-expr: '' @ showInt len @ str '' # '' @ TypeString U (Array elem len)])"
proof -
  let ?r = "str ''repeat: expr''"
  let ?last = "str ''repeat-expr: '' @ showInt len @ str '' # '' @ TypeString U (Array elem len)"
  have r: "nl \<notin> set ?r" by (simp add: str_def nl_def)
  have split1: "splitOn nl (s @ nl # (?r @ nl # ?last)) = splitOn nl s @ splitOn nl (?r @ nl # ?last)"
    by (rule splitOn_append)
  have split2: "splitOn nl (?r @ nl # ?last) = splitOn nl ?r @ splitOn nl ?last"
    by (rule splitOn_append)
  have "splitOn nl (s @ nl # (?r @ nl # ?last)) = splitOn nl s @ [?r, ?last]"
    if n: "nl \<notin> set (TypeString U (Array elem len))"
  proof -
    from n have l: "nl \<notin> set ?last"
      using showInt_no_nl[of len] by (simp add: str_def nl_def)
    show ?thesis
      unfolding split1 split2 splitOn_single[OF r] splitOn_single[OF l] by simp
  qed
  moreover have "kaiType U (Array elem len) g = Inr (s @ [nl] @ ?r @ [nl] @ ?last, g1)"
    using assms by simp
  ultimately show ?thesis by (simp add: readInt_showInt)
qed

theorem kaiType_array_witness:
  "kaiType exampleEnv (Basic Uint8 (str ''uint8'')) \<lparr>buf = [], defs = [], namedTypeDeps = {}\<rparr>
       = Inr (str ''type: u1 # uint8'', \<lparr>buf = [], defs = [], namedTypeDeps = {}\<rparr>)
     \<and> kaiType exampleEnv (Array (Basic Uint8 (str ''uint8'')) 4)
           \<lparr>buf = [], defs = [], namedTypeDeps = {}\<rparr>
         = Inr (str ''type: u1 # uint8'' @ [nl] @ str ''repeat: expr'' @ [nl]
                  @ str ''repeat-expr: 4 # [4]uint8'',
                \<lparr>buf = [], defs = [], namedTypeDeps = {}\<rparr>)
     \<and> readInt (showInt 4) = 4"
proof -
  have h: "kaiType exampleEnv (Basic Uint8 (str ''uint8'')) \<lparr>buf = [], defs = [], namedTypeDeps = {}\<rparr>
       = Inr (str ''type: u1 # uint8'', \<lparr>buf = [], defs = [], namedTypeDeps = {}\<rparr>)"
    by (simp add: str_def)
  have d: "showInt 4 = str ''4''"
    by (simp add: showInt_def showNat.simps str_def)
  show ?thesis
    using h d kaiType_array [OF h, of 4]
    by (simp add: str_def exampleEnv_def)
qed

lemma generateFields_append:
  "generateFields U (a @ b) g =
     (case generateFields U a g of Inl e \<Rightarrow> Inl e | Inr g1 \<Rightarrow> generateFields U b g1)"
  by (induction a arbitrary: g) (simp_all add: Let_def split: sum.splits prod.splits)

text \<open>
  C9: a struct type met as the type of a field, not through a named type, makes
  \<^verbatim>\<open>kaiType\<close> fail with the unsupported-kind error: its switch has no case for structs.
  So \<^verbatim>\<open>generateType\<close> on a struct with such a field fails with that error, unless an
  earlier field has failed already; a struct body is translated only by
  \<^verbatim>\<open>generateType\<close>, which is given the definition of a requested top-level type.
\<close>

theorem kaiType_inline_struct:
  "kaiType U (Struct fs) g = Inl (UnsupportedTypeKind (Struct fs))
   \<and> generateType U (Struct (pre @ (name, Struct fs) # post)) g =
       (case generateType U (Struct pre) g of
          Inl e \<Rightarrow> Inl e
        | Inr g1 \<Rightarrow> Inl (UnsupportedTypeKind (Struct fs)))"
  by (simp add: generateFields_append Let_def split: sum.splits)

text \<open>
  C10: \<^verbatim>\<open>kaiType\<close> returns on every type: a depth of calls of one more than the
  number of array and slice types around the first type of another kind is enough, and
  the result is that of \<open>kaiType\<close>. A named type, a pointer and a signature count for
  nothing in that number, whatever lies under them: their cases make no further call.
\<close>

theorem kaiType_terminates:
  "kaiTypeN (Suc (wrapDepth t)) U t g = Some (kaiType U t g)
     \<and> wrapDepth (Named name underlying) = 0
     \<and> wrapDepth (Pointer elem) = 0
     \<and> wrapDepth (Signature params results) = 0"
  using kaiTypeN_enough [of t "Suc (wrapDepth t)" U g] by simp

section \<open>generateType\<close>

lemma idEntry_id: "idEntry (str ''      - id: '' @ x)"
  by (simp add: idEntry_def)

lemma idEntry_directive: "\<not> idEntry (str ''        '' @ x)"
  by (simp add: idEntry_def str_def)

lemma generateFields_lines:
  "generateFields U fs g = Inr g' \<Longrightarrow> \<forall>f\<in>set fs. nl \<notin> set (snakeCase U (fst f)) \<Longrightarrow>
   \<exists>L. buf g' = buf g @ unlines L \<and> (\<forall>l\<in>set L. nl \<notin> set l)
     \<and> filter idEntry L = map (\<lambda>f. str ''      - id: '' @ snakeCase U (fst f)) fs"
proof (induction fs arbitrary: g)
  case Nil
  then have "buf g' = buf g @ unlines []" by (simp add: unlines_def)
  then show ?case by fastforce
next
  case (Cons f fs)
  let ?idl = "str ''      - id: '' @ snakeCase U (fst f)"
  let ?g1 = "Printf g (?idl @ [nl])"
  from Cons.prems(1) obtain s g2 where k: "kaiType U (snd f) ?g1 = Inr (s, g2)"
    by (auto split: sum.splits simp: Let_def)
  let ?dl = "map (\<lambda>l. str ''        '' @ l) (splitOn nl s)"
  let ?g3 = "fold (\<lambda>l h. Printf h (str ''        '' @ l @ [nl])) (splitOn nl s) g2"
  from Cons.prems(1) k have r: "generateFields U fs ?g3 = Inr g'"
    by (simp add: Let_def)
  from Cons.prems(2) have "\<forall>f\<in>set fs. nl \<notin> set (snakeCase U (fst f))" by simp
  from Cons.IH[OF r this] obtain L where L: "buf g' = buf ?g3 @ unlines L"
    "\<forall>l\<in>set L. nl \<notin> set l"
    "filter idEntry L = map (\<lambda>f. str ''      - id: '' @ snakeCase U (fst f)) fs"
    by blast
  have b3: "buf ?g3 = buf g @ unlines (?idl # ?dl)"
    using kaiType_buf[OF k] fold_Printf_buf[of "\<lambda>l. str ''        '' @ l @ [nl]" "splitOn nl s" g2]
    by (simp add: Printf_def unlines_def comp_def)
  have nl1: "nl \<notin> set ?idl" using Cons.prems(2) by (simp add: str_def nl_def)
  have nl2: "\<forall>l\<in>set ?dl. nl \<notin> set l"
    using splitOn_pieces[of _ nl s] by (auto simp: str_def nl_def)
  have f2: "filter idEntry ?dl = []"
    by (simp add: filter_empty_conv idEntry_directive)
  have "buf g' = buf g @ unlines ((?idl # ?dl) @ L)"
    using L(1) b3 by (simp add: unlines_def)
  moreover have "\<forall>l\<in>set ((?idl # ?dl) @ L). nl \<notin> set l"
    using nl1 nl2 L(2) by auto
  moreover have "filter idEntry ((?idl # ?dl) @ L) = map (\<lambda>f. str ''      - id: '' @ snakeCase U (fst f)) (f # fs)"
    using f2 L(3) idEntry_id[of "snakeCase U (fst f)"] by simp
  ultimately show ?case by blast
qed

text \<open>
  C5: when a struct with the fields \<open>fs\<close> is translated, the text added to the buffer
  has, among its lines, exactly one \<^verbatim>\<open>- id:\<close> line for each field, and these lines come
  in the order of the fields, each with the normalized name of its field: as many as
  there are fields. (The normalized names hold no line feed, as identifiers do.)
\<close>

theorem generateType_struct_entries:
  assumes "generateType U (Struct fs) g = Inr g'"
    and "\<forall>f\<in>set fs. nl \<notin> set (snakeCase U (fst f))"
  shows "filter idEntry (splitOn nl (drop (length (buf g)) (buf g')))
           = map (\<lambda>f. str ''      - id: '' @ snakeCase U (fst f)) fs
       \<and> length (filter idEntry (splitOn nl (drop (length (buf g)) (buf g')))) = length fs"
proof -
  from assms obtain L where L: "buf g' = buf g @ unlines L"
    "\<forall>l\<in>set L. nl \<notin> set l"
    "filter idEntry L = map (\<lambda>f. str ''      - id: '' @ snakeCase U (fst f)) fs"
    using generateFields_lines[of U fs g g'] by auto
  have "splitOn nl (unlines L @ []) = L @ splitOn nl []"
    using L(2) by (rule splitOn_unlines)
  then have "splitOn nl (drop (length (buf g)) (buf g')) = L @ [[]]"
    using L(1) by simp
  moreover have "\<not> idEntry []" by (simp add: idEntry_def str_def)
  ultimately have "filter idEntry (splitOn nl (drop (length (buf g)) (buf g'))) = filter idEntry L"
    by simp
  with L(3) show ?thesis by simp
qed

theorem generateType_struct_entries_witness:
  "generateType exampleEnv
       (Struct [(str ''X'', Basic Int32 (str ''int32'')), (str ''Y'', Basic Int32 (str ''int32''))])
       \<lparr>buf = [], defs = [], namedTypeDeps = {}\<rparr>
     = Inr \<lparr>buf = str ''      - id: x'' @ [nl] @ str ''        type: s4 # int32'' @ [nl]
                   @ str ''      - id: y'' @ [nl] @ str ''        type: s4 # int32'' @ [nl],
            defs = [], namedTypeDeps = {}\<rparr>
   \<and> filter idEntry (splitOn nl
         (str ''      - id: x'' @ [nl] @ str ''        type: s4 # int32'' @ [nl]
            @ str ''      - id: y'' @ [nl] @ str ''        type: s4 # int32'' @ [nl]))
       = [str ''      - id: x'', str ''      - id: y'']"
proof -
  let ?fs = "[(str ''X'', Basic Int32 (str ''int32'')), (str ''Y'', Basic Int32 (str ''int32''))]"
  let ?g = "\<lparr>buf = [], defs = [], namedTypeDeps = {}\<rparr>"
  let ?out = "str ''      - id: x'' @ [nl] @ str ''        type: s4 # int32'' @ [nl]
                @ str ''      - id: y'' @ [nl] @ str ''        type: s4 # int32'' @ [nl]"
  have x: "snakeCase exampleEnv (str ''X'') = str ''x''"
    by (simp add: snakeCase_def snakeStep_def exampleEnv_def underscore_def str_def)
  have y: "snakeCase exampleEnv (str ''Y'') = str ''y''"
    by (simp add: snakeCase_def snakeStep_def exampleEnv_def underscore_def str_def)
  have h1: "generateType exampleEnv (Struct ?fs) ?g = Inr \<lparr>buf = ?out, defs = [], namedTypeDeps = {}\<rparr>"
    by (simp add: x y Let_def Printf_def) (simp add: str_def nl_def)
  have h2: "\<forall>f\<in>set ?fs. nl \<notin> set (snakeCase exampleEnv (fst f))"
    by (simp add: x y) (simp add: str_def nl_def)
  have e: "str ''      - id: '' @ str ''x'' = str ''      - id: x''"
    "str ''      - id: '' @ str ''y'' = str ''      - id: y''"
    by (simp_all add: str_def)
  show ?thesis
    using h1 generateType_struct_entries [OF h1 h2] by (simp add: x y e)
qed

section \<open>The run\<close>

lemma generateFields_defs: "generateFields U fs g = Inr g' \<Longrightarrow> defs g' = defs g"
proof (induction fs arbitrary: g)
  case Nil
  then show ?case by simp
next
  case (Cons f fs)
  let ?g1 = "Printf g (str ''      - id: '' @ snakeCase U (fst f) @ [nl])"
  from Cons.prems obtain s g2 where k: "kaiType U (snd f) ?g1 = Inr (s, g2)"
    by (auto split: sum.splits simp: Let_def)
  let ?g3 = "fold (\<lambda>l h. Printf h (str ''        '' @ l @ [nl])) (splitOn nl s) g2"
  from Cons.prems k have "generateFields U fs ?g3 = Inr g'" by (simp add: Let_def)
  then have "defs g' = defs ?g3" by (rule Cons.IH)
  also have "defs ?g3 = defs g2" by (rule fold_Printf_defs)
  also have "defs g2 = defs ?g1" using kaiType_buf[OF k] by simp
  also have "defs ?g1 = defs g" by (simp add: Printf_def)
  finally show ?case .
qed

lemma generateType_defs: "generateType U t g = Inr g' \<Longrightarrow> defs g' = defs g"
  by (cases t) (simp_all add: generateFields_defs)

lemma generate_defs: "generate U t g = (ev, Inr g') \<Longrightarrow> defs g' = defs g"
  using generateType_defs[of U _ _ g']
  by (auto simp: generate_def Printf_def split: option.splits)

lemma generate_events: "generate U t g = (ev, r) \<Longrightarrow> \<forall>e\<in>set ev. \<not> isWrite e"
  by (auto simp: generate_def isWrite_def split: option.splits)

lemma generateAll_events: "generateAll U ts g = (ev, r) \<Longrightarrow> \<forall>e\<in>set ev. \<not> isWrite e"
proof (induction ts arbitrary: g ev r)
  case Nil
  then show ?case by simp
next
  case (Cons t ts)
  obtain ev1 r1 where g1: "generate U t g = (ev1, r1)" by (cases "generate U t g")
  note e1 = generate_events[OF g1]
  show ?case
  proof (cases r1)
    case (Inl e)
    with Cons.prems g1 e1 show ?thesis by simp
  next
    case (Inr g')
    obtain ev2 r2 where g2: "generateAll U ts g' = (ev2, r2)" by (cases "generateAll U ts g'")
    with Cons.prems g1 Inr have "ev = ev1 @ ev2" by simp
    with e1 Cons.IH[OF g2] show ?thesis by auto
  qed
qed

lemma generateAll_fails:
  "t \<in> set ts \<Longrightarrow> \<forall>g. defs g = ds \<longrightarrow> (\<exists>ev e. generate U t g = (ev, Inl e)) \<Longrightarrow> defs g = ds
   \<Longrightarrow> \<exists>ev e. generateAll U ts g = (ev, Inl e)"
proof (induction ts arbitrary: g)
  case Nil
  then show ?case by simp
next
  case (Cons a ts)
  obtain ev1 r1 where g1: "generate U a g = (ev1, r1)" by (cases "generate U a g")
  show ?case
  proof (cases r1)
    case (Inl e)
    with g1 show ?thesis by simp
  next
    case (Inr g')
    with g1 have d: "defs g' = ds" using generate_defs[of U a g ev1 g'] Cons.prems(3) by simp
    from Inr g1 Cons.prems(2,3) have "a \<noteq> t" by auto
    with Cons.prems(1) have "t \<in> set ts" by simp
    from Cons.IH[OF this Cons.prems(2) d] obtain ev2 e where "generateAll U ts g' = (ev2, Inl e)"
      by blast
    with g1 Inr show ?thesis by simp
  qed
qed

text \<open>
  C8: a run that ends with one of the three errors (no definition for a requested name,
  a type of an unsupported kind, a primitive kind without a code) has written no file:
  the document is in the buffer only, and the file is written after every requested type
  has been generated.
\<close>

theorem abort_writes_no_file:
  "status (main U cmdline typeNames output dir ds) = Aborted e \<Longrightarrow>
     \<forall>ev\<in>set (events (main U cmdline typeNames output dir ds)). \<not> isWrite ev"
proof -
  assume a: "status (main U cmdline typeNames output dir ds) = Aborted e"
  let ?g3 = "Printf (Printf (Printf \<lparr>buf = [], defs = ds, namedTypeDeps = {}\<rparr>
               (str ''# Code generated by '' @ [34] @ str ''enum2kaitai '' @ cmdline
                   @ [34] @ str ''; DO NOT EDIT.'' @ [nl])) [nl]) (str ''types:'' @ [nl])"
  obtain ev r where g: "generateAll U (splitOn 44 typeNames) ?g3 = (ev, r)"
    by (cases "generateAll U (splitOn 44 typeNames) ?g3")
  from a have ne: "typeNames \<noteq> []" by (auto simp: main_def)
  show ?thesis
  proof (cases r)
    case (Inl e')
    with g ne have "events (main U cmdline typeNames output dir ds) = ev"
      by (simp add: main_def Let_def)
    with generateAll_events[OF g] show ?thesis by simp
  next
    case (Inr g')
    with g ne have "status (main U cmdline typeNames output dir ds) \<noteq> Aborted e"
      by (simp add: main_def Let_def)
    with a show ?thesis by simp
  qed
qed

theorem abort_writes_no_file_witness:
  "status (main exampleEnv (str ''-type T'') (str ''T'') [] (str ''pkg'')
       [(str ''T'', Struct [(str ''M'', Map (Basic String (str ''string'')) (Basic IntKind (str ''int'')))])])
     = Aborted (UnsupportedTypeKind (Map (Basic String (str ''string'')) (Basic IntKind (str ''int''))))
   \<and> (\<forall>ev\<in>set (events (main exampleEnv (str ''-type T'') (str ''T'') [] (str ''pkg'')
       [(str ''T'', Struct [(str ''M'', Map (Basic String (str ''string'')) (Basic IntKind (str ''int'')))])])).
         \<not> isWrite ev)"
proof -
  have h: "status (main exampleEnv (str ''-type T'') (str ''T'') [] (str ''pkg'')
       [(str ''T'', Struct [(str ''M'', Map (Basic String (str ''string'')) (Basic IntKind (str ''int'')))])])
     = Aborted (UnsupportedTypeKind (Map (Basic String (str ''string'')) (Basic IntKind (str ''int''))))"
    by (simp add: main_def generate_def str_def Let_def Printf_def)
  show ?thesis
    using h abort_writes_no_file [OF h] by simp
qed

text \<open>
  C1, as the specification has it: a requested type defined over an 8-bit unsigned kind
  gives a run that succeeds, with an entry made of \<^verbatim>\<open>type: u1\<close> and an \<^verbatim>\<open>enum:\<close> line.
  \<^verbatim>\<open>generateType\<close> has a case for structs only: the run ends in its panic.
\<close>

theorem requested_primitive_type_counterexample:
  "main exampleEnv (str ''-type OrderStatus'') (str ''OrderStatus'') [] (str ''pkg'')
       [(str ''OrderStatus'', Basic Uint8 (str ''uint8''))]
     = \<lparr>events = [LogGenerating (str ''order_status'')],
        status = Aborted (UnsupportedTypeKind (Basic Uint8 (str ''uint8'')))\<rparr>"
  by (simp add: main_def generate_def str_def Let_def Printf_def snakeCase_def snakeStep_def
        exampleEnv_def underscore_def)

text \<open>
  C1, amended: a requested type whose definition is a primitive-backed type makes
  \<^verbatim>\<open>generate\<close> fail with the unsupported-kind error, after the log line with the
  normalized name, and the run that requests it ends with an error; the lines
  \<^verbatim>\<open>type: u1\<close> and \<^verbatim>\<open>enum:\<close> are those of a struct field of that type (C4).
\<close>

theorem requested_primitive_type_aborts:
  assumes "typeNames \<noteq> []" and "t \<in> set (splitOn 44 typeNames)"
    and "map_of ds t = Some (Basic kind bname)"
  shows "(\<exists>e. status (main U cmdline typeNames output dir ds) = Aborted e)
       \<and> (\<forall>g. defs g = ds \<longrightarrow> generate U t g =
              ([LogGenerating (snakeCase U t)], Inl (UnsupportedTypeKind (Basic kind bname))))"
proof -
  have f: "\<forall>g. defs g = ds \<longrightarrow> generate U t g =
              ([LogGenerating (snakeCase U t)], Inl (UnsupportedTypeKind (Basic kind bname)))"
    using assms(3) by (simp add: generate_def)
  let ?g3 = "Printf (Printf (Printf \<lparr>buf = [], defs = ds, namedTypeDeps = {}\<rparr>
               (str ''# Code generated by '' @ [34] @ str ''enum2kaitai '' @ cmdline
                   @ [34] @ str ''; DO NOT EDIT.'' @ [nl])) [nl]) (str ''types:'' @ [nl])"
  have d: "defs ?g3 = ds" by (simp add: Printf_def)
  from f have "\<forall>g. defs g = ds \<longrightarrow> (\<exists>ev e. generate U t g = (ev, Inl e))" by simp
  from generateAll_fails[OF assms(2) this d]
  obtain ev e where "generateAll U (splitOn 44 typeNames) ?g3 = (ev, Inl e)" by blast
  with assms(1) have "status (main U cmdline typeNames output dir ds) = Aborted e"
    by (simp add: main_def Let_def)
  with f show ?thesis by blast
qed

theorem requested_primitive_type_aborts_witness:
  "str ''OrderStatus'' \<noteq> []
     \<and> str ''OrderStatus'' \<in> set (splitOn 44 (str ''OrderStatus''))
     \<and> map_of [(str ''OrderStatus'', Basic Uint8 (str ''uint8''))] (str ''OrderStatus'')
         = Some (Basic Uint8 (str ''uint8''))
     \<and> (\<exists>e. status (main exampleEnv (str ''-type OrderStatus'') (str ''OrderStatus'') [] (str ''pkg'')
                 [(str ''OrderStatus'', Basic Uint8 (str ''uint8''))]) = Aborted e)"
proof -
  have h1: "str ''OrderStatus'' \<noteq> []" by (simp add: str_def)
  have h2: "str ''OrderStatus'' \<in> set (splitOn 44 (str ''OrderStatus''))"
    by (simp add: str_def)
  have h3: "map_of [(str ''OrderStatus'', Basic Uint8 (str ''uint8''))] (str ''OrderStatus'')
         = Some (Basic Uint8 (str ''uint8''))"
    by simp
  show ?thesis
    using h1 h2 h3
      requested_primitive_type_aborts [OF h1 h2 h3, of exampleEnv "str ''-type OrderStatus''" "[]" "str ''pkg''"]
    by blast
qed

end
